theory Spec2Isabelle
  imports Complex_Main "HOL-Library.Sublist" "HOL-Library.List_Lexorder" "HOL-Library.Char_ord"
begin

section \<open>JavaScript values\<close>

text \<open>
  The values the bridge handles are what \<^verbatim>\<open>JSON.parse\<close> and \<^verbatim>\<open>resp.json()\<close> produce,
  together with \<^verbatim>\<open>undefined\<close>, which reading a missing property yields. An object is an
  association list in insertion order; a property is looked up with \<open>map_of\<close>. The numbers
  of a payload are integers, of a magnitude JavaScript holds and prints exactly (below
  \<open>2^53\<close>): no claim below depends on a fractional or a larger number of a payload.
\<close>

datatype json =
    JUndef
  | JNull
  | JBool bool
  | JNum int
  | JStr string
  | JArr "json list"
  | JObj "(string \<times> json) list"

text \<open>What a \<^verbatim>\<open>throw\<close> can carry in the source: a string, an \<^verbatim>\<open>Error(msg)\<close>, or one of the
  errors of the runtime (a property read on \<^verbatim>\<open>null\<close>/\<^verbatim>\<open>undefined\<close>, a failing
  \<^verbatim>\<open>JSON.parse\<close>, a rejected \<^verbatim>\<open>fetch\<close> or \<^verbatim>\<open>resp.json()\<close>).\<close>

datatype thrown =
    Str string
  | Error string
  | TypeError
  | SyntaxError
  | Rejected string

text \<open>JavaScript truthiness (\<^verbatim>\<open>if (x)\<close>, \<^verbatim>\<open>a && b\<close>, \<^verbatim>\<open>a || b\<close>).\<close>

fun truthy :: "json \<Rightarrow> bool" where
  "truthy JUndef = False"
| "truthy JNull = False"
| "truthy (JBool b) = b"
| "truthy (JNum n) = (n \<noteq> 0)"
| "truthy (JStr s) = (s \<noteq> [])"
| "truthy (JArr xs) = True"
| "truthy (JObj fs) = True"

text \<open>\<^verbatim>\<open>x == null\<close>: true of \<^verbatim>\<open>null\<close> and \<^verbatim>\<open>undefined\<close> only. Reading a property of such
  a value raises a TypeError; every read below is guarded by this test where the source can
  reach it with such a value.\<close>

fun nullish :: "json \<Rightarrow> bool" where
  "nullish JUndef = True"
| "nullish JNull = True"
| "nullish v = False"

text \<open>\<^verbatim>\<open>x.name\<close> for a value that is not nullish. The names the source reads
  (\<^verbatim>\<open>error\<close>, \<^verbatim>\<open>type\<close>, \<^verbatim>\<open>message\<close>, \<^verbatim>\<open>choices\<close>, \<^verbatim>\<open>content\<close>, \<^verbatim>\<open>text\<close>, \<^verbatim>\<open>delta\<close>) are
  not properties of strings, numbers, booleans or arrays, so there the read is
  \<^verbatim>\<open>undefined\<close>.\<close>

fun get :: "json \<Rightarrow> string \<Rightarrow> json" where
  "get (JObj fs) k = (case map_of fs k of Some v \<Rightarrow> v | None \<Rightarrow> JUndef)"
| "get v k = JUndef"

text \<open>\<^verbatim>\<open>x[0]\<close> for a value that is not nullish: the first element of an array, the first
  character of a string, the property \<^verbatim>\<open>"0"\<close> of an object.\<close>

fun at0 :: "json \<Rightarrow> json" where
  "at0 (JArr xs) = (case xs of [] \<Rightarrow> JUndef | x # _ \<Rightarrow> x)"
| "at0 (JStr s) = (case s of [] \<Rightarrow> JUndef | c # _ \<Rightarrow> JStr [c])"
| "at0 (JObj fs) = (case map_of fs ''0'' of Some v \<Rightarrow> v | None \<Rightarrow> JUndef)"
| "at0 v = JUndef"

text \<open>\<^verbatim>\<open>a?.name\<close>: \<^verbatim>\<open>undefined\<close> when \<^verbatim>\<open>a\<close> is nullish, the property otherwise.\<close>

definition optGet :: "json \<Rightarrow> string \<Rightarrow> json" where
  "optGet v k = (if nullish v then JUndef else get v k)"

text \<open>\<^verbatim>\<open>a || b\<close> and \<^verbatim>\<open>a && b\<close> on values.\<close>

definition orElse :: "json \<Rightarrow> json \<Rightarrow> json" where
  "orElse a b = (if truthy a then a else b)"

definition andThen :: "json \<Rightarrow> json \<Rightarrow> json" where
  "andThen a b = (if truthy a then b else a)"

text \<open>The decimal digits of a natural number, and the string a value turns into when it is
  concatenated to a string or interpolated in a template.\<close>

fun digits :: "nat \<Rightarrow> string" where
  "digits n = (if n < 10 then [char_of (48 + n)] else digits (n div 10) @ [char_of (48 + n mod 10)])"

declare digits.simps [simp del]

definition joinWith :: "string \<Rightarrow> string list \<Rightarrow> string" where
  "joinWith sep xs = (case xs of [] \<Rightarrow> [] | y # ys \<Rightarrow> y @ concat (map (\<lambda>z. sep @ z) ys))"

fun toStr :: "json \<Rightarrow> string" where
  "toStr JUndef = ''undefined''"
| "toStr JNull = ''null''"
| "toStr (JBool b) = (if b then ''true'' else ''false'')"
| "toStr (JNum n) = (if n < 0 then ''-'' @ digits (nat (- n)) else digits (nat n))"
| "toStr (JStr s) = s"
| "toStr (JArr xs) = joinWith '','' (map (\<lambda>x. if nullish x then [] else toStr x) xs)"
| "toStr (JObj fs) = ''[object Object]''"

section \<open>Strings\<close>

text \<open>
  Strings are lists of characters, a character being a code unit below 256. \<^verbatim>\<open>trim\<close>
  removes white space and line terminators from both ends: of the characters below 256
  these are tab, line feed, vertical tab, form feed, carriage return, space and the
  no-break space U+00A0.
\<close>

definition NL :: char where
  "NL = CHR 0x0A"

definition isSpace :: "char \<Rightarrow> bool" where
  "isSpace c = (c \<in> {CHR 0x09, CHR 0x0A, CHR 0x0B, CHR 0x0C, CHR 0x0D, CHR 0x20, CHR 0xA0})"

definition trim :: "string \<Rightarrow> string" where
  "trim s = rev (dropWhile isSpace (rev (dropWhile isSpace s)))"

text \<open>\<^verbatim>\<open>s.startsWith(p)\<close>.\<close>

definition startsWith :: "string \<Rightarrow> string \<Rightarrow> bool" where
  "startsWith s p = prefix p s"

text \<open>\<^verbatim>\<open>s.indexOf(p)\<close>: the first position at which \<open>p\<close> occurs in \<open>s\<close>, \<open>-1\<close> when it
  does not occur.\<close>

fun indexFrom :: "nat \<Rightarrow> string \<Rightarrow> string \<Rightarrow> int" where
  "indexFrom i [] p = (if p = [] then int i else - 1)"
| "indexFrom i (c # cs) p = (if prefix p (c # cs) then int i else indexFrom (Suc i) cs p)"

definition indexOf :: "string \<Rightarrow> string \<Rightarrow> int" where
  "indexOf s p = indexFrom 0 s p"

section \<open>The provider call: \<^verbatim>\<open>src/openai/getChatCompletion.js\<close>\<close>

text \<open>
  The function first shapes the request (lines 45--103: the prompt becomes a message list,
  the defaults are merged in, \<^verbatim>\<open>max_tokens\<close> is computed); that part either throws before
  any provider call or leaves \<^verbatim>\<open>reqJson\<close> and \<^verbatim>\<open>useRawApi\<close>. The model starts there, at
  line 105. What the function does besides returning or throwing is recorded in the state:
  the warnings written with \<^verbatim>\<open>console.warn\<close>, the values handed to the stream listener, and
  how often \<^verbatim>\<open>fetch\<close> and the reader's \<^verbatim>\<open>read\<close> were called. The listener is a sink: one
  that throws is outside the model.
\<close>

datatype warning =
    ApiErrorWarn json
  | DataEventFormatWarn string
  | UnprocessedDataWarn string
  | EventProcessingWarn thrown
  | UnableError json thrown
  | UnableResponse json json

datatype outcome = Returned json | Threw thrown

record st =
  respJson :: json
  respErr :: "thrown option"
  rawBuffer :: string
  parsedRes :: string
  warns :: "warning list"
  emitted :: "json list"
  fetches :: nat
  reads :: nat

definition init :: st where
  "init = \<lparr>respJson = JNull, respErr = None, rawBuffer = [], parsedRes = [],
           warns = [], emitted = [], fetches = 0, reads = 0\<rparr>"

definition warn :: "warning \<Rightarrow> st \<Rightarrow> st" where
  "warn w s = s\<lparr>warns := warns s @ [w]\<rparr>"

definition streamListener :: "json \<Rightarrow> st \<Rightarrow> st" where
  "streamListener v s = s\<lparr>emitted := emitted s @ [v]\<rparr>"

subsection \<open>Non-streaming requests\<close>

text \<open>What the provider does at one attempt: \<^verbatim>\<open>fetch\<close> or \<^verbatim>\<open>resp.json()\<close> rejects (the
  transport failed, or the body is not JSON), or a body is received and parsed.\<close>

datatype reply = Rejects string | Body json

text \<open>The body of the \<^verbatim>\<open>try\<close> block (lines 116--163): \<open>Inr v\<close> is \<^verbatim>\<open>return v\<close>, \<open>Inl e\<close> is
  \<^verbatim>\<open>throw e\<close>.\<close>

definition checkResponse :: "bool \<Rightarrow> json \<Rightarrow> st \<Rightarrow> (thrown + json) \<times> st" where
  "checkResponse useRawApi j s =
     (if nullish j then (Inl TypeError, s)
      else if truthy (get j ''error'') then
        (Inl (Str (''['' @ toStr (get (get j ''error'') ''type'') @ ''] '' @ toStr (get j ''message''))),
         warn (ApiErrorWarn (get j ''error'')) s)
      else if truthy (andThen (get j ''choices'') (at0 (get j ''choices''))) then
        (let c = at0 (get j ''choices'') in
         if truthy (andThen (get c ''message'') (get (get c ''message'') ''content'')) then
           (if useRawApi then (Inr j, s)
            else (let finalStr = get (get c ''message'') ''content''
                  in (Inr finalStr, streamListener finalStr s)))
         else if truthy (get c ''text'') then
           (if useRawApi then (Inr j, s)
            else (let finalStr = get c ''text''
                  in (Inr finalStr, streamListener finalStr s)))
         else (Inr JNull, s))
      else (Inr JNull, s))"

definition attempt :: "bool \<Rightarrow> reply \<Rightarrow> st \<Rightarrow> (thrown + json) \<times> st" where
  "attempt useRawApi r s =
     (case r of
        Rejects e \<Rightarrow> (Inl (Rejected e), s\<lparr>fetches := fetches s + 1\<rparr>)
      | Body j \<Rightarrow> checkResponse useRawApi j (s\<lparr>fetches := fetches s + 1, respJson := j\<rparr>))"

text \<open>The loop \<^verbatim>\<open>for (let tries = 0; tries < 2; ++tries)\<close> with its \<^verbatim>\<open>catch\<close>, which stores
  the exception in \<^verbatim>\<open>respErr\<close> and lets the loop go on. \<open>Some v\<close>: the function returned
  \<open>v\<close> from inside the loop; \<open>None\<close>: the loop ran out.\<close>

function triesLoop :: "bool \<Rightarrow> (nat \<Rightarrow> reply) \<Rightarrow> nat \<Rightarrow> st \<Rightarrow> json option \<times> st" where
  "triesLoop useRawApi provider tries s =
     (if tries < 2 then
        (case attempt useRawApi (provider tries) s of
           (Inr v, s') \<Rightarrow> (Some v, s')
         | (Inl e, s') \<Rightarrow> triesLoop useRawApi provider (Suc tries) (s'\<lparr>respErr := Some e\<rparr>))
      else (None, s))"
  by pat_completeness auto
termination
  by (relation "measure (\<lambda>(u, p, tries, s). 2 - tries)") auto

declare triesLoop.simps [simp del]

text \<open>Lines 284--300: the warning with the request and either the stored exception or the
  last body, then the \<^verbatim>\<open>Error\<close>. The test \<^verbatim>\<open>if (respErr)\<close> is the test that an exception
  was stored: every exception of the model (an error object, a non-empty string) is
  truthy.\<close>

definition unexpectedResponse :: "json \<Rightarrow> st \<Rightarrow> outcome \<times> st" where
  "unexpectedResponse reqJson s =
     (Threw (Error ''Missing valid openai response, please check warn logs for more details''),
      (case respErr s of
         Some e \<Rightarrow> warn (UnableError reqJson e) s
       | None \<Rightarrow> warn (UnableResponse reqJson (respJson s)) s))"

definition nonStreaming :: "bool \<Rightarrow> json \<Rightarrow> (nat \<Rightarrow> reply) \<Rightarrow> outcome \<times> st" where
  "nonStreaming useRawApi reqJson provider =
     (case triesLoop useRawApi provider 0 init of
        (Some v, s) \<Rightarrow> (Returned v, s)
      | (None, s) \<Rightarrow> unexpectedResponse reqJson s)"

subsection \<open>Streaming requests\<close>

text \<open>
  \<^verbatim>\<open>JSON.parse\<close> belongs to the runtime; it is a parameter \<open>parse\<close> of the decoder, \<open>None\<close>
  standing for the SyntaxError it raises. The reader hands over the chunks of the body one
  by one, already decoded to text, and then signals completion with
  \<^verbatim>\<open>{value: undefined, done: true}\<close>: the list of chunks is the byte source, its end the
  completion signal.
\<close>

definition NLNL :: string where
  "NLNL = [NL, NL]"

text \<open>\<^verbatim>\<open>while (rawBuffer.startsWith("\n")) rawBuffer = rawBuffer.slice(1)\<close>.\<close>

definition stripNL :: "string \<Rightarrow> string" where
  "stripNL s = dropWhile (\<lambda>c. c = NL) s"

text \<open>Lines 243--246: the token of a parsed data object.\<close>

definition strTokenOf :: "json \<Rightarrow> json" where
  "strTokenOf dataObj =
     (if truthy (andThen (get dataObj ''choices'') (at0 (get dataObj ''choices''))) then
        (let c = at0 (get dataObj ''choices'')
         in orElse (orElse (optGet (optGet c ''delta'') ''content'') (optGet c ''text'')) (JStr []))
      else JStr [])"

text \<open>Lines 226--258: what is done with one data event. \<open>Some e\<close> is \<^verbatim>\<open>throw e\<close>, \<open>None\<close>
  is \<^verbatim>\<open>continue\<close>.\<close>

definition dataEventStep :: "(string \<Rightarrow> json option) \<Rightarrow> string \<Rightarrow> st \<Rightarrow> thrown option \<times> st" where
  "dataEventStep parse dataEvent s =
     (if startsWith dataEvent ''error:'' then
        (Some (Str (''Unexpected stream request error: '' @ drop 6 dataEvent)), s)
      else if startsWith dataEvent ''data: [DONE]'' then (None, s)
      else if startsWith dataEvent ''data: {'' then
        (case parse (trim (drop 6 dataEvent)) of
           None \<Rightarrow> (Some SyntaxError, s)
         | Some dataObj \<Rightarrow>
             if nullish dataObj then (Some TypeError, s)
             else (let strToken = strTokenOf dataObj
                   in (None, streamListener strToken (s\<lparr>parsedRes := parsedRes s @ toStr strToken\<rparr>))))
      else (Some (Str ''Unexpected data event format, see warning logs''),
            warn (DataEventFormatWarn dataEvent) s))"

lemma rawBuffer_dataEventStep: "rawBuffer (snd (dataEventStep parse ev s)) = rawBuffer s"
  by (simp add: dataEventStep_def streamListener_def warn_def Let_def split: option.splits)

lemma indexFrom_pos: "0 < indexFrom i s p \<Longrightarrow> s \<noteq> [] \<or> 0 < i"
  by (cases s) (auto split: if_splits)

lemma indexOf_pos: "0 < indexOf s p \<Longrightarrow> s \<noteq> []"
  using indexFrom_pos [of 0 s p] by (simp add: indexOf_def)

text \<open>Lines 221 and 224: the data event at the head of the buffer, the text before the
  first blank line with its white space trimmed, and the state once the event and the two
  line feeds are removed from the buffer.\<close>

definition dataEventOf :: "st \<Rightarrow> string" where
  "dataEventOf s = trim (take (nat (indexOf (rawBuffer s) NLNL)) (rawBuffer s))"

definition afterEvent :: "st \<Rightarrow> st" where
  "afterEvent s = s\<lparr>rawBuffer := drop (nat (indexOf (rawBuffer s) NLNL) + 2) (rawBuffer s)\<rparr>"

text \<open>The inner loop \<^verbatim>\<open>while ((doubleNL_pos = rawBuffer.indexOf("\n\n")) > 0)\<close>.\<close>

function drainEvents :: "(string \<Rightarrow> json option) \<Rightarrow> st \<Rightarrow> thrown option \<times> st" where
  "drainEvents parse s =
     (if indexOf (rawBuffer s) NLNL > 0 then
        (case dataEventStep parse (dataEventOf s) (afterEvent s) of
           (Some e, s') \<Rightarrow> (Some e, s')
         | (None, s') \<Rightarrow> drainEvents parse s')
      else (None, s))"
  by pat_completeness auto
termination
proof (relation "measure (\<lambda>(parse, s). length (rawBuffer s))")
  show "wf (measure (\<lambda>(parse, s). length (rawBuffer s)))" by simp
next
  fix parse s x y x2
  assume pos: "0 < indexOf (rawBuffer s) NLNL"
    and step: "(x, y) = dataEventStep parse (dataEventOf s) (afterEvent s)"
  from step have "y = snd (dataEventStep parse (dataEventOf s) (afterEvent s))"
    by (metis snd_conv)
  then have "rawBuffer y = drop (nat (indexOf (rawBuffer s) NLNL) + 2) (rawBuffer s)"
    by (simp only: rawBuffer_dataEventStep) (simp add: afterEvent_def)
  moreover have "rawBuffer s \<noteq> []" using pos by (rule indexOf_pos)
  ultimately show "((parse, y), (parse, s)) \<in> measure (\<lambda>(parse, s). length (rawBuffer s))"
    by simp
qed

declare drainEvents.simps [simp del]

text \<open>Lines 203--213: one \<^verbatim>\<open>reader.read()\<close>. A chunk is appended to the buffer, the
  completion signal (\<open>None\<close>) appends nothing; then the line feeds at the head of the buffer
  are removed.\<close>

definition afterRead :: "string option \<Rightarrow> st \<Rightarrow> st" where
  "afterRead value s =
     (case value of
        Some chunk \<Rightarrow> s\<lparr>reads := reads s + 1, rawBuffer := stripNL (rawBuffer s @ chunk)\<rparr>
      | None \<Rightarrow> s\<lparr>reads := reads s + 1, rawBuffer := stripNL (rawBuffer s)\<rparr>)"

text \<open>The outer loop \<^verbatim>\<open>while (true)\<close>: one iteration per read. On the completion signal
  the events still in the buffer are processed and the loop is left.\<close>

fun readLoop :: "(string \<Rightarrow> json option) \<Rightarrow> string list \<Rightarrow> st \<Rightarrow> thrown option \<times> st" where
  "readLoop parse [] s = drainEvents parse (afterRead None s)"
| "readLoop parse (chunk # rest) s =
     (case drainEvents parse (afterRead (Some chunk) s) of
        (Some e, s') \<Rightarrow> (Some e, s')
      | (None, s') \<Rightarrow> readLoop parse rest s')"

text \<open>Lines 184--275, the body of the \<^verbatim>\<open>try\<close>: the loop, then the check of what is left in
  the buffer.\<close>

definition streamBody :: "(string \<Rightarrow> json option) \<Rightarrow> string list \<Rightarrow> st \<Rightarrow> (thrown + string) \<times> st" where
  "streamBody parse chunks s =
     (case readLoop parse chunks s of
        (Some e, s') \<Rightarrow> (Inl e, s')
      | (None, s') \<Rightarrow>
          if length (trim (rawBuffer s')) > 0 then
            (Inl (Str ''Unexpected end of stream, with unprocessed data, see warning logs for more details''),
             warn (UnprocessedDataWarn (trim (rawBuffer s'))) s')
          else (Inr (parsedRes s'), s'))"

text \<open>Lines 276--278, the \<^verbatim>\<open>catch\<close>: whatever was thrown is written to the warning log and
  a fixed string is thrown instead.\<close>

definition streamFrom :: "(string \<Rightarrow> json option) \<Rightarrow> string list \<Rightarrow> st \<Rightarrow> outcome \<times> st" where
  "streamFrom parse chunks s =
     (case streamBody parse chunks s of
        (Inl e, s') \<Rightarrow>
          (Threw (Str ''Unexpected event processing error, see warning logs for more details''),
           warn (EventProcessingWarn e) s')
      | (Inr r, s') \<Rightarrow> (Returned (JStr r), s'))"

text \<open>The streaming branch: one \<^verbatim>\<open>fetch\<close>, outside the \<^verbatim>\<open>try\<close>, then the decoding.\<close>

datatype source = FetchRejects string | Chunks "string list"

definition streaming :: "(string \<Rightarrow> json option) \<Rightarrow> source \<Rightarrow> outcome \<times> st" where
  "streaming parse src =
     (case src of
        FetchRejects e \<Rightarrow> (Threw (Rejected e), init\<lparr>fetches := 1\<rparr>)
      | Chunks chunks \<Rightarrow> streamFrom parse chunks (init\<lparr>fetches := 1\<rparr>))"

text \<open>Line 110: \<open>stream\<close> is the value of the test \<^verbatim>\<open>reqJson.stream == true\<close>.\<close>

definition getChatCompletion ::
  "bool \<Rightarrow> bool \<Rightarrow> json \<Rightarrow> (nat \<Rightarrow> reply) \<Rightarrow> (string \<Rightarrow> json option) \<Rightarrow> source \<Rightarrow> outcome \<times> st" where
  "getChatCompletion useRawApi stream reqJson provider parse src =
     (if \<not> stream then nonStreaming useRawApi reqJson provider else streaming parse src)"

text \<open>
  The states in which the decoder looks for the next data event, in the order of the run:
  \<open>decoderAt parse chunks s0 rest s\<close> holds when the decoding of \<open>chunks\<close> started in \<open>s0\<close>
  comes to test the condition of the inner loop in state \<open>s\<close>, with the chunks \<open>rest\<close> not
  yet read (\<open>None\<close> once the completion signal was read).
\<close>

inductive decoderAt ::
  "(string \<Rightarrow> json option) \<Rightarrow> string list \<Rightarrow> st \<Rightarrow> string list option \<Rightarrow> st \<Rightarrow> bool"
  for parse :: "string \<Rightarrow> json option" where
  start_done: "decoderAt parse [] s0 None (afterRead None s0)"
| start_chunk: "decoderAt parse (c # cs) s0 (Some cs) (afterRead (Some c) s0)"
| next_event:
    "decoderAt parse chunks s0 rest s \<Longrightarrow> 0 < indexOf (rawBuffer s) NLNL \<Longrightarrow>
     dataEventStep parse (dataEventOf s) (afterEvent s) = (None, s') \<Longrightarrow>
     decoderAt parse chunks s0 rest s'"
| next_chunk:
    "decoderAt parse chunks s0 (Some (c # cs)) s \<Longrightarrow> \<not> 0 < indexOf (rawBuffer s) NLNL \<Longrightarrow>
     decoderAt parse chunks s0 (Some cs) (afterRead (Some c) s)"
| completion:
    "decoderAt parse chunks s0 (Some []) s \<Longrightarrow> \<not> 0 < indexOf (rawBuffer s) NLNL \<Longrightarrow>
     decoderAt parse chunks s0 None (afterRead None s)"

text \<open>How the outer loop goes on once the inner loop has ended.\<close>

definition resume ::
  "(string \<Rightarrow> json option) \<Rightarrow> string list option \<Rightarrow> thrown option \<times> st \<Rightarrow> thrown option \<times> st" where
  "resume parse rest r =
     (case r of
        (Some e, s') \<Rightarrow> (Some e, s')
      | (None, s') \<Rightarrow> (case rest of None \<Rightarrow> (None, s') | Some cs \<Rightarrow> readLoop parse cs s'))"

subsection \<open>A JSON reader for the examples\<close>

text \<open>
  An instance of the \<open>parse\<close> parameter, for evaluating the decoder on concrete streams: a
  reader for JSON whose strings have no escapes and whose numbers are integers. It agrees
  with \<^verbatim>\<open>JSON.parse\<close> on such texts without duplicate keys.
\<close>

definition DQ :: char where
  "DQ = CHR 0x22"

text \<open>The white space of JSON: tab, line feed, carriage return, space.\<close>

definition isJsonSpace :: "char \<Rightarrow> bool" where
  "isJsonSpace c = (c \<in> {CHR 0x09, CHR 0x0A, CHR 0x0D, CHR 0x20})"

definition ws :: "string \<Rightarrow> string" where
  "ws s = dropWhile isJsonSpace s"

definition isDigit :: "char \<Rightarrow> bool" where
  "isDigit c = (48 \<le> (of_char c :: nat) \<and> (of_char c :: nat) \<le> 57)"

definition numeral_of :: "string \<Rightarrow> int" where
  "numeral_of ds = foldl (\<lambda>a c. 10 * a + (int (of_char c) - 48)) 0 ds"

fun readString :: "string \<Rightarrow> (string \<times> string) option" where
  "readString [] = None"
| "readString (c # cs) =
     (if c = DQ then Some ([], cs)
      else if c = CHR 0x5C then None
      else (case readString cs of None \<Rightarrow> None | Some (t, r) \<Rightarrow> Some (c # t, r)))"

fun readValue :: "nat \<Rightarrow> string \<Rightarrow> (json \<times> string) option"
  and readElems :: "nat \<Rightarrow> string \<Rightarrow> (json list \<times> string) option"
  and readMembers :: "nat \<Rightarrow> string \<Rightarrow> ((string \<times> json) list \<times> string) option" where
  "readValue 0 s = None"
| "readValue (Suc n) s =
     (case ws s of
        [] \<Rightarrow> None
      | c # cs \<Rightarrow>
          if c = DQ then (case readString cs of None \<Rightarrow> None | Some (t, r) \<Rightarrow> Some (JStr t, r))
          else if c = CHR ''['' then
            (if startsWith (ws cs) '']'' then Some (JArr [], drop 1 (ws cs))
             else (case readElems n cs of None \<Rightarrow> None | Some (vs, r) \<Rightarrow> Some (JArr vs, r)))
          else if c = CHR ''{'' then
            (if startsWith (ws cs) ''}'' then Some (JObj [], drop 1 (ws cs))
             else (case readMembers n cs of None \<Rightarrow> None | Some (fs, r) \<Rightarrow> Some (JObj fs, r)))
          else if startsWith (c # cs) ''true'' then Some (JBool True, drop 3 cs)
          else if startsWith (c # cs) ''false'' then Some (JBool False, drop 4 cs)
          else if startsWith (c # cs) ''null'' then Some (JNull, drop 3 cs)
          else if isDigit c then
            Some (JNum (numeral_of (takeWhile isDigit (c # cs))), dropWhile isDigit cs)
          else if c = CHR ''-'' \<and> takeWhile isDigit cs \<noteq> [] then
            Some (JNum (- numeral_of (takeWhile isDigit cs)), dropWhile isDigit cs)
          else None)"
| "readElems 0 s = None"
| "readElems (Suc n) s =
     (case readValue n s of
        None \<Rightarrow> None
      | Some (v, r) \<Rightarrow>
          if startsWith (ws r) '','' then
            (case readElems n (drop 1 (ws r)) of None \<Rightarrow> None | Some (vs, r') \<Rightarrow> Some (v # vs, r'))
          else if startsWith (ws r) '']'' then Some ([v], drop 1 (ws r))
          else None)"
| "readMembers 0 s = None"
| "readMembers (Suc n) s =
     (if startsWith (ws s) [DQ] then
        (case readString (drop 1 (ws s)) of
           None \<Rightarrow> None
         | Some (k, r) \<Rightarrow>
             if startsWith (ws r) '':'' then
               (case readValue n (drop 1 (ws r)) of
                  None \<Rightarrow> None
                | Some (v, r') \<Rightarrow>
                    if startsWith (ws r') '','' then
                      (case readMembers n (drop 1 (ws r')) of
                         None \<Rightarrow> None
                       | Some (fs, r'') \<Rightarrow> Some ((k, v) # fs, r''))
                    else if startsWith (ws r') ''}'' then Some ([(k, v)], drop 1 (ws r'))
                    else None)
             else None)
      else None)"

definition readJson :: "string \<Rightarrow> json option" where
  "readJson s =
     (case readValue (Suc (length s)) s of
        None \<Rightarrow> None
      | Some (v, r) \<Rightarrow> if ws r = [] then Some v else None)"

section \<open>The shared remote cache: \<^verbatim>\<open>MongoDBCache\<close>\<close>

text \<open>
  A document is a list of fields; a collection is a list of documents in their natural
  order; the database maps a collection name to its collection. A filter is a document:
  it matches the documents that hold each of its fields with an equal value.
  \<^verbatim>\<open>findOne\<close> returns the first match. \<^verbatim>\<open>updateOne\<close> with \<^verbatim>\<open>upsert: true\<close> applies the
  \<^verbatim>\<open>$set\<close> fields to the first match, or inserts a document made of the filter's fields and
  the \<^verbatim>\<open>$set\<close> fields when nothing matches.
\<close>

type_synonym doc = "(string \<times> json) list"

type_synonym db = "string \<Rightarrow> doc list"

definition matches :: "doc \<Rightarrow> doc \<Rightarrow> bool" where
  "matches filt d = list_all (\<lambda>(k, v). map_of d k = Some v) filt"

definition findOne :: "doc list \<Rightarrow> doc \<Rightarrow> doc option" where
  "findOne coll filt = List.find (matches filt) coll"

fun setField :: "string \<Rightarrow> json \<Rightarrow> doc \<Rightarrow> doc" where
  "setField k v [] = [(k, v)]"
| "setField k v ((k', v') # d) = (if k = k' then (k, v) # d else (k', v') # setField k v d)"

definition setFields :: "doc \<Rightarrow> doc \<Rightarrow> doc" where
  "setFields sets d = foldl (\<lambda>d' (k, v). setField k v d') d sets"

fun updateOne :: "doc list \<Rightarrow> doc \<Rightarrow> doc \<Rightarrow> doc list" where
  "updateOne [] filt sets = [setFields sets filt]"
| "updateOne (d # ds) filt sets =
     (if matches filt d then setFields sets d # ds else d # updateOne ds filt sets)"

text \<open>The cache object the layer cache hands to a backend. \<^verbatim>\<open>promptOpt\<close> holds the
  request's options; the other fields are the parts of the key.\<close>

record cacheObj =
  promptOpt :: json
  hash :: string
  tempKey :: int
  prompt :: string
  cleanOpt :: json

text \<open>Lines 15--17: \<^verbatim>\<open>type + '_' + cacheObj.promptOpt.model\<close>. Reading the model of options
  that are \<^verbatim>\<open>null\<close> or \<^verbatim>\<open>undefined\<close> raises a TypeError, which the four operations pass
  on.\<close>

definition getCacheCollectionName :: "string \<Rightarrow> cacheObj \<Rightarrow> thrown + string" where
  "getCacheCollectionName type c =
     (if nullish (promptOpt c) then Inl TypeError
      else Inr (type @ ''_'' @ toStr (get (promptOpt c) ''model'')))"

definition getCacheCompletion :: "db \<Rightarrow> cacheObj \<Rightarrow> thrown + json" where
  "getCacheCompletion store c =
     (case getCacheCollectionName ''completion'' c of
        Inl e \<Rightarrow> Inl e
      | Inr collectionName \<Rightarrow>
          (case findOne (store collectionName)
                  [(''hash'', JStr (hash c)), (''tempKey'', JNum (tempKey c)),
                   (''prompt'', JStr (prompt c)), (''opt'', cleanOpt c)] of
             Some record \<Rightarrow> Inr (get (JObj record) ''completion'')
           | None \<Rightarrow> Inr JNull))"

definition addCacheCompletion :: "db \<Rightarrow> cacheObj \<Rightarrow> json \<Rightarrow> thrown + db" where
  "addCacheCompletion store c completion =
     (case getCacheCollectionName ''completion'' c of
        Inl e \<Rightarrow> Inl e
      | Inr collectionName \<Rightarrow>
          Inr (store (collectionName :=
                 updateOne (store collectionName)
                   [(''hash'', JStr (hash c)), (''tempKey'', JNum (tempKey c)),
                    (''prompt'', JStr (prompt c)), (''opt'', cleanOpt c)]
                   [(''completion'', completion)])))"

definition getCacheEmbedding :: "db \<Rightarrow> cacheObj \<Rightarrow> thrown + json" where
  "getCacheEmbedding store c =
     (case getCacheCollectionName ''embedding'' c of
        Inl e \<Rightarrow> Inl e
      | Inr collectionName \<Rightarrow>
          (case findOne (store collectionName) [(''prompt'', JStr (prompt c))] of
             Some record \<Rightarrow> Inr (get (JObj record) ''embedding'')
           | None \<Rightarrow> Inr JNull))"

definition addCacheEmbedding :: "db \<Rightarrow> cacheObj \<Rightarrow> json \<Rightarrow> thrown + db" where
  "addCacheEmbedding store c embedding =
     (case getCacheCollectionName ''embedding'' c of
        Inl e \<Rightarrow> Inl e
      | Inr collectionName \<Rightarrow>
          Inr (store (collectionName :=
                 updateOne (store collectionName)
                   [(''prompt'', JStr (prompt c)), (''opt'', cleanOpt c)]
                   [(''embedding'', embedding)])))"

text \<open>An upsert followed by a lookup in the resulting store.\<close>

definition thenLookup :: "thrown + db \<Rightarrow> (db \<Rightarrow> thrown + json) \<Rightarrow> thrown + json" where
  "thenLookup r f = (case r of Inl e \<Rightarrow> Inl e | Inr store \<Rightarrow> f store)"

section \<open>The canonical serialization: \<^verbatim>\<open>jsonStringify\<close>\<close>

lemma size_elem: "x \<in> set xs \<Longrightarrow> size x < Suc (size_list size xs)"
  by (induction xs) auto

lemma size_snd_mem:
  "(k, v) \<in> set fs \<Longrightarrow> size v < Suc (size_list (size_prod (\<lambda>_. 0) size) fs)"
  by (induction fs) auto

text \<open>One member of the text of an object: nothing when the value has no JSON text.\<close>

definition member :: "(string \<Rightarrow> string) \<Rightarrow> string \<Rightarrow> string option \<Rightarrow> string list" where
  "member quote key value = (case value of None \<Rightarrow> [] | Some t \<Rightarrow> [quote key @ '':'' @ t])"

text \<open>
  Modelled from the spec: \<^verbatim>\<open>jsonStringify\<close>, which \<^verbatim>\<open>AiBridge.js\<close> imports from the package
  \<^verbatim>\<open>fast-json-stable-stringify\<close>; the package is not among the sources. The spec calls it
  a canonical, key-order-independent encoding. The model is the JSON text of a value with
  the keys of every object sorted: a member whose value has no JSON text (\<^verbatim>\<open>undefined\<close>)
  is left out of an object and written \<^verbatim>\<open>null\<close> in an array. \<open>quote\<close> is \<^verbatim>\<open>JSON.stringify\<close>
  on a string, which belongs to the runtime.
\<close>

function jsonStringify :: "(string \<Rightarrow> string) \<Rightarrow> json \<Rightarrow> string option" where
  "jsonStringify quote JUndef = None"
| "jsonStringify quote JNull = Some ''null''"
| "jsonStringify quote (JBool b) = Some (toStr (JBool b))"
| "jsonStringify quote (JNum n) = Some (toStr (JNum n))"
| "jsonStringify quote (JStr s) = Some (quote s)"
| "jsonStringify quote (JArr xs) =
     Some (''['' @ joinWith '',''
             (map (\<lambda>x. case jsonStringify quote x of None \<Rightarrow> ''null'' | Some t \<Rightarrow> t) xs) @ '']'')"
| "jsonStringify quote (JObj fs) =
     Some (''{'' @ joinWith '',''
             (concat (map (\<lambda>(key, v). member quote key (jsonStringify quote v))
                        (sort_key fst fs))) @ ''}'')"
  by pat_completeness auto
termination
  by (relation "measure (\<lambda>(q, j). size j)") (auto dest: size_snd_mem size_elem)

text \<open>Two values with the same content: equal up to the order in which the fields of their
  objects were inserted. The keys of an object are distinct.\<close>

function (sequential) sameContent :: "json \<Rightarrow> json \<Rightarrow> bool" where
  "sameContent (JArr xs) (JArr ys) =
     (length xs = length ys \<and> (\<forall>(x, y) \<in> set (zip xs ys). sameContent x y))"
| "sameContent (JObj fs) (JObj gs) =
     (distinct (map fst fs) \<and> distinct (map fst gs) \<and> set (map fst fs) = set (map fst gs) \<and>
      (\<forall>(k, v) \<in> set fs. sameContent v (get (JObj gs) k)))"
| "sameContent a b = (a = b)"
  by pat_completeness auto
termination
  by (relation "measure (\<lambda>(a, b). size a)") (auto dest: size_snd_mem size_elem set_zip_leftD)

text \<open>A quoting function for the examples: it agrees with \<^verbatim>\<open>JSON.stringify\<close> on strings
  without quotes, backslashes and control characters.\<close>

definition plainQuote :: "string \<Rightarrow> string" where
  "plainQuote s = DQ # s @ [DQ]"

section \<open>The bridge: \<^verbatim>\<open>src/AiBridge.js\<close>\<close>

subsection \<open>The constructor\<close>

text \<open>
  \<open>config\<close> is the configuration after the merge with the defaults (the merge is done by
  the package \<^verbatim>\<open>@js-util/config-object-merge\<close>), with the fields the bridge reads. The layer
  cache is built by a class that is not among the sources; the constructor receives it
  built.
\<close>

text \<open>
  A JavaScript number as the bridge computes with it: a finite number, \<^verbatim>\<open>NaN\<close>, or one of
  the two infinities. The finite numbers are the reals: the rounding and the overflow of
  floating point are not modelled. \<^verbatim>\<open>parseFloat\<close> reads \<^verbatim>\<open>NaN\<close> from a setting that is
  \<^verbatim>\<open>null\<close>, \<^verbatim>\<open>undefined\<close> or does not begin with a number.
\<close>

datatype number = Finite real | NaN | PosInfinity | NegInfinity

text \<open>The sign of a number other than \<^verbatim>\<open>NaN\<close>.\<close>

fun signOf :: "number \<Rightarrow> int" where
  "signOf (Finite x) = (if x < 0 then - 1 else if x = 0 then 0 else 1)"
| "signOf PosInfinity = 1"
| "signOf NegInfinity = - 1"
| "signOf NaN = 0"

text \<open>\<^verbatim>\<open>a * b\<close>: \<^verbatim>\<open>NaN\<close> when an operand is \<^verbatim>\<open>NaN\<close> or when zero meets an infinity.\<close>

fun mul :: "number \<Rightarrow> number \<Rightarrow> number" where
  "mul NaN b = NaN"
| "mul a NaN = NaN"
| "mul (Finite x) (Finite y) = Finite (x * y)"
| "mul a b =
     (if signOf a * signOf b = 0 then NaN
      else if 0 < signOf a * signOf b then PosInfinity else NegInfinity)"

text \<open>\<^verbatim>\<open>Math.floor(a)\<close>.\<close>

fun mathFloor :: "number \<Rightarrow> number" where
  "mathFloor (Finite x) = Finite (of_int \<lfloor>x\<rfloor>)"
| "mathFloor a = a"

text \<open>\<^verbatim>\<open>a <= 0\<close> and \<^verbatim>\<open>a < 0\<close>: false of \<^verbatim>\<open>NaN\<close>.\<close>

fun lessEqZero :: "number \<Rightarrow> bool" where
  "lessEqZero (Finite x) = (x \<le> 0)"
| "lessEqZero NegInfinity = True"
| "lessEqZero a = False"

fun lessZero :: "number \<Rightarrow> bool" where
  "lessZero (Finite x) = (x < 0)"
| "lessZero NegInfinity = True"
| "lessZero a = False"


text \<open>\<open>temperatureKeyMultiplier\<close> is \<^verbatim>\<open>parseFloat(this.config.temperatureKeyMultiplier)\<close>.\<close>

record config =
  provider :: json
  temperatureKeyMultiplier :: number

record 'c bridge =
  bridgeConfig :: config
  layerCache :: 'c
  openai_key :: json
  anthropic_key :: json

text \<open>\<^verbatim>\<open>x == ""\<close>, the loose comparison with the empty string: the empty string, the number
  zero, \<^verbatim>\<open>false\<close>, and an array whose text is empty.\<close>

definition looseEqEmpty :: "json \<Rightarrow> bool" where
  "looseEqEmpty v =
     (case v of
        JStr t \<Rightarrow> t = []
      | JNum n \<Rightarrow> n = 0
      | JBool b \<Rightarrow> \<not> b
      | JArr xs \<Rightarrow> toStr (JArr xs) = []
      | _ \<Rightarrow> False)"

text \<open>Lines 66--71: \<^verbatim>\<open>if (key == null || key == "") key = null\<close>.\<close>

definition nullOutEmpty :: "json \<Rightarrow> json" where
  "nullOutEmpty k = (if nullish k \<or> looseEqEmpty k then JNull else k)"

definition AiBridge :: "config \<Rightarrow> 'c \<Rightarrow> thrown + 'c bridge" where
  "AiBridge cfg cache =
     (if nullish (provider cfg) then Inl TypeError
      else (let ok = nullOutEmpty (get (provider cfg) ''openai'');
                ak = nullOutEmpty (get (provider cfg) ''anthropic'')
            in if nullish ak \<and> nullish ok then Inl (Str ''No provider keys provided'')
               else Inr \<lparr>bridgeConfig = cfg, layerCache = cache, openai_key = ok, anthropic_key = ak\<rparr>))"

text \<open>A key that is absent or the empty string.\<close>

definition emptyKey :: "json \<Rightarrow> bool" where
  "emptyKey k = (nullish k \<or> k = JStr [])"

text \<open>The two keys a constructed bridge holds.\<close>

definition keysOf :: "thrown + 'c bridge \<Rightarrow> thrown + json \<times> json" where
  "keysOf r = map_sum id (\<lambda>b. (openai_key b, anthropic_key b)) r"

subsection \<open>Chat completions\<close>

text \<open>
  The options of a chat request, \<^verbatim>\<open>Object.assign({}, this.config.default.chat, promptOpts)\<close>,
  with the fields the bridge reads typed as the configuration documents them: the model a
  string or absent, \<^verbatim>\<open>max_tokens\<close> a number, \<^verbatim>\<open>"auto"\<close> or absent, \<^verbatim>\<open>total_tokens\<close> a number
  or absent. The token counts are integers; \<open>NotANumber\<close> is the \<^verbatim>\<open>NaN\<close> the bridge itself
  stores in \<^verbatim>\<open>max_tokens\<close>. \<open>temperature\<close> is \<^verbatim>\<open>parseFloat(opt.temperature)\<close>, the number
  the bridge reads from the setting.
\<close>

datatype maxTokens = Unset | Auto | Tokens int | NotANumber

record chatOpt =
  model :: "string option"
  max_tokens :: maxTokens
  total_tokens :: "int option"
  temperature :: number
  messages :: json
  otherOpts :: json

text \<open>Lines 136--143: a string becomes one user message, a single message object becomes a
  list of one message.\<close>

definition normalizeMessages :: "json \<Rightarrow> thrown + json" where
  "normalizeMessages msgs =
     (case msgs of
        JStr t \<Rightarrow> Inr (JArr [JObj [(''role'', JStr ''user''), (''content'', msgs)]])
      | JArr xs \<Rightarrow> Inr msgs
      | _ \<Rightarrow> if nullish msgs then Inl TypeError
             else if \<not> nullish (get msgs ''role'') \<and> \<not> nullish (get msgs ''content'')
               then Inr (JArr [msgs])
             else Inr msgs)"

text \<open>\<^verbatim>\<open>s.endsWith(p)\<close>.\<close>

definition endsWith :: "string \<Rightarrow> string \<Rightarrow> bool" where
  "endsWith s p = suffix p s"

text \<open>\<^verbatim>\<open>messagesArr.length\<close> as a number: the length of an array or a string, which is what
  a message payload is, or the \<^verbatim>\<open>length\<close> property of another object when that is a
  number. \<open>None\<close> stands for \<^verbatim>\<open>NaN\<close>, the product of a missing length with 2; a length that
  is no number is taken as missing, without the coercion JavaScript would apply to it.\<close>

definition lengthOf :: "json \<Rightarrow> int option" where
  "lengthOf v =
     (case v of
        JArr xs \<Rightarrow> Some (int (length xs))
      | JStr t \<Rightarrow> Some (int (length t))
      | _ \<Rightarrow> (case get v ''length'' of JNum n \<Rightarrow> Some n | _ \<Rightarrow> None))"

text \<open>Lines 283--334. The default model is chosen by \<^verbatim>\<open>this._anthropic_key\<close>, but the function
  is called as a plain function of the module, where \<^verbatim>\<open>this\<close> is not the bridge and has no
  such property: the default is always the second one.\<close>

definition normalizeCompletionOptObject :: "chatOpt \<Rightarrow> int \<Rightarrow> json \<Rightarrow> thrown + chatOpt" where
  "normalizeCompletionOptObject opt promptTokenCount messagesArr =
     (let m0 = (case model opt of
                  None \<Rightarrow> ''gpt-3.5-turbo-1106''
                | Some m \<Rightarrow> if m = [] then ''gpt-3.5-turbo-1106'' else m);
          m1 = (if m0 = ''gpt-4e''
                then (if promptTokenCount < 14000 then ''gpt-3.5-turbo-1106''
                      else ''gpt-4-1106-preview'')
                else m0);
          opt1 = opt\<lparr>model := Some m1\<rparr>
      in if max_tokens opt1 = Auto \<or> max_tokens opt1 = Unset then
           (let autoTotalTokens =
                  (if startsWith m1 ''gpt-4'' then 128000
                   else if startsWith m1 ''claude'' \<and> endsWith m1 ''100k'' then 90000
                   else 16835);
                totalTokens = (case total_tokens opt1 of
                                 Some t \<Rightarrow> if t \<noteq> 0 then t else autoTotalTokens
                               | None \<Rightarrow> autoTotalTokens)
            in if nullish messagesArr then
                 (if totalTokens - promptTokenCount \<le> 50 then
                    Inl (Str (''Prompt is larger or nearly equal to total token count (''
                              @ toStr (JNum promptTokenCount) @ ''/'' @ toStr (JNum totalTokens) @ '')''))
                  else Inr (opt1\<lparr>max_tokens := Tokens (totalTokens - promptTokenCount)\<rparr>))
               else (case lengthOf messagesArr of
                       None \<Rightarrow> Inr (opt1\<lparr>max_tokens := NotANumber\<rparr>)
                     | Some n \<Rightarrow>
                         (let tokenLength = promptTokenCount + n * 2
                          in if totalTokens - tokenLength \<le> 50 then
                               Inl (Str (''Prompt is larger or nearly equal to total token count (''
                                         @ toStr (JNum tokenLength) @ ''/'' @ toStr (JNum totalTokens) @ '')''))
                             else Inr (opt1\<lparr>max_tokens := Tokens (totalTokens - tokenLength)\<rparr>))))
         else Inr opt1)"

text \<open>Lines 159--171: the temp key. \<open>temp\<close> and \<open>multiplier\<close> are what \<^verbatim>\<open>parseFloat\<close> reads
  from the two settings, \<open>rnd\<close> is the value \<^verbatim>\<open>Math.random()\<close> returns, a number
  \<open>0 \<le> rnd < 1\<close>, and \<open>tk\<close> is the temp key of the caller. The first test stands for
  \<^verbatim>\<open>opt.temperature == 0\<close>; what it assigns is overwritten by the \<^verbatim>\<open>if\<close> that follows, which
  has both branches, so the result depends on the settings through \<^verbatim>\<open>parseFloat\<close> alone.\<close>

definition generateTempKey :: "number \<Rightarrow> number \<Rightarrow> real \<Rightarrow> number \<Rightarrow> number" where
  "generateTempKey temp multiplier rnd tk =
     (if lessZero tk then
        (let tk1 = (if temp = Finite 0 then Finite 0 else tk);
             tempRange = mul temp multiplier
         in if lessEqZero (mathFloor tempRange) then Finite 0
            else mathFloor (mul (Finite rnd) tempRange))
      else tk)"

text \<open>What the bridge calls and does not define: the token counter, the layer cache, the two
  provider calls, \<^verbatim>\<open>Math.random\<close> and the quoting of \<^verbatim>\<open>jsonStringify\<close>. A provider call
  yields its outcome and the values it handed to the stream listener. The promise queue runs
  the call; its admission order and the added latency are a matter of time and are not
  modelled.\<close>

record 'c env =
  jsonQuote :: "string \<Rightarrow> string"
  getTokenCount :: "json \<Rightarrow> int"
  getCacheChatCompletion :: "'c \<Rightarrow> json \<Rightarrow> chatOpt \<Rightarrow> string \<Rightarrow> number \<Rightarrow> json"
  addCacheChatCompletion :: "'c \<Rightarrow> json \<Rightarrow> json \<Rightarrow> chatOpt \<Rightarrow> string \<Rightarrow> number \<Rightarrow> 'c"
  anthropic_getChatCompletion :: "json \<Rightarrow> chatOpt \<Rightarrow> outcome \<times> json list"
  openai_getChatCompletion :: "json \<Rightarrow> chatOpt \<Rightarrow> outcome \<times> json list"
  mathRandom :: real

record chatResult =
  resModel :: string
  resCompletion :: json
  tokenPrompt :: int
  tokenCompletion :: int
  tokenCache :: bool

text \<open>The request as it stands before the cache is asked (lines 135--171): the cache index
  of the messages, its token count, the normalized options, the model and the temp key.\<close>

record prepared =
  pPrompt :: json
  pTokens :: int
  pOpt :: chatOpt
  pModel :: string
  pTempKey :: number

text \<open>The cache index of a message payload, line 150. A payload without JSON text gives
  \<^verbatim>\<open>undefined\<close>.\<close>

definition cacheIndex :: "(string \<Rightarrow> string) \<Rightarrow> json \<Rightarrow> json" where
  "cacheIndex quote msgs = (case jsonStringify quote msgs of Some t \<Rightarrow> JStr t | None \<Rightarrow> JUndef)"

definition prepare :: "'c env \<Rightarrow> 'c bridge \<Rightarrow> json \<Rightarrow> chatOpt \<Rightarrow> number \<Rightarrow> thrown + prepared" where
  "prepare E self msgs0 opt0 tk =
     (case normalizeMessages msgs0 of
        Inl e \<Rightarrow> Inl e
      | Inr msgs \<Rightarrow>
          (let promptTokenCount = getTokenCount E (cacheIndex (jsonQuote E) msgs)
           in case normalizeCompletionOptObject (opt0\<lparr>messages := msgs\<rparr>) promptTokenCount msgs of
                Inl e \<Rightarrow> Inl e
              | Inr opt \<Rightarrow>
                  (case model opt of
                     None \<Rightarrow> Inl TypeError
                   | Some m \<Rightarrow>
                       Inr \<lparr>pPrompt = cacheIndex (jsonQuote E) msgs, pTokens = promptTokenCount,
                            pOpt = opt, pModel = m,
                            pTempKey = generateTempKey (temperature opt)
                                         (temperatureKeyMultiplier (bridgeConfig self))
                                         (mathRandom E) tk\<rparr>)))"

text \<open>Lines 173--216: the cache is asked; a hit is handed to the listener and returned; on a
  miss the provider is called, its completion is added to the cache and returned.\<close>

definition serve ::
  "'c env \<Rightarrow> 'c bridge \<Rightarrow> string \<Rightarrow> prepared \<Rightarrow> (thrown + chatResult) \<times> json list \<times> 'c" where
  "serve E self cacheGrp p =
     (let cacheRes = getCacheChatCompletion E (layerCache self) (pPrompt p) (pOpt p) cacheGrp (pTempKey p)
      in if \<not> nullish cacheRes then
           (Inr \<lparr>resModel = pModel p, resCompletion = cacheRes, tokenPrompt = pTokens p,
                 tokenCompletion = getTokenCount E cacheRes, tokenCache = True\<rparr>,
            [cacheRes], layerCache self)
         else
           (case (if startsWith (pModel p) ''claude-''
                  then anthropic_getChatCompletion E (anthropic_key self) (pOpt p)
                  else openai_getChatCompletion E (openai_key self) (pOpt p)) of
              (Threw e, heard) \<Rightarrow> (Inl e, heard, layerCache self)
            | (Returned completionRes, heard) \<Rightarrow>
                (Inr \<lparr>resModel = pModel p, resCompletion = completionRes, tokenPrompt = pTokens p,
                      tokenCompletion = getTokenCount E completionRes, tokenCache = False\<rparr>,
                 heard,
                 addCacheChatCompletion E (layerCache self) (pPrompt p) completionRes (pOpt p)
                   cacheGrp (pTempKey p))))"

definition AiBridge_getChatCompletion ::
  "'c env \<Rightarrow> 'c bridge \<Rightarrow> json \<Rightarrow> chatOpt \<Rightarrow> string \<Rightarrow> number
     \<Rightarrow> (thrown + chatResult) \<times> json list \<times> 'c" where
  "AiBridge_getChatCompletion E self msgs0 opt0 cacheGrp tk =
     (case prepare E self msgs0 opt0 tk of
        Inl e \<Rightarrow> (Inl e, [], layerCache self)
      | Inr p \<Rightarrow> serve E self cacheGrp p)"

subsection \<open>An environment for the examples\<close>

text \<open>An instance of what the bridge calls, for evaluating it on concrete requests: the cache
  is a list of prompts with their completions, the token counter counts characters, the
  OpenAI call is the non-streaming call above against a provider that answers
  \<^verbatim>\<open>"Hello!"\<close>.\<close>

definition demoEnv :: "(json \<times> json) list env" where
  "demoEnv =
     \<lparr>jsonQuote = plainQuote,
      getTokenCount = (\<lambda>j. int (length (toStr j))),
      getCacheChatCompletion = (\<lambda>c pr opt grp tk. case map_of c pr of Some v \<Rightarrow> v | None \<Rightarrow> JNull),
      addCacheChatCompletion = (\<lambda>c pr v opt grp tk. (pr, v) # c),
      anthropic_getChatCompletion = (\<lambda>key opt. (Threw (Str ''no anthropic key''), [])),
      openai_getChatCompletion =
        (\<lambda>key opt.
           case nonStreaming False (JObj [])
                  (\<lambda>tries. Body (JObj [(''choices'', JArr [JObj [(''message'', JObj [(''content'', JStr ''Hello!'')])]])])) of
             (r, s) \<Rightarrow> (r, emitted s)),
      mathRandom = 1 / 2\<rparr>"

definition demoBridge :: "(json \<times> json) list \<Rightarrow> (json \<times> json) list bridge" where
  "demoBridge c =
     \<lparr>bridgeConfig = \<lparr>provider = JObj [(''openai'', JStr ''sk-1'')], temperatureKeyMultiplier = Finite 10\<rparr>,
      layerCache = c, openai_key = JStr ''sk-1'', anthropic_key = JNull\<rparr>"

definition demoOpt :: chatOpt where
  "demoOpt = \<lparr>model = None, max_tokens = Unset, total_tokens = None, temperature = Finite 0,
              messages = JUndef, otherOpts = JObj []\<rparr>"

section \<open>Properties of the provider call\<close>

subsection \<open>The retry loop\<close>

lemma attempt_fetches: "fetches (snd (attempt u r s)) = Suc (fetches s)"
  by (cases r) (simp_all add: attempt_def checkResponse_def Let_def warn_def streamListener_def)

lemma error_body_second_attempt:
  assumes "replies 0 = Body j" and "\<not> nullish j" and "truthy (get j ''error'')"
  shows "fetches (snd (nonStreaming u req replies)) = 2"
proof -
  obtain e s1 where s1: "attempt u (replies 0) init = (Inl e, s1)"
    using assms by (simp add: attempt_def checkResponse_def)
  have f1: "fetches s1 = 1"
    using attempt_fetches [of u "replies 0" init] s1 by (simp add: init_def)
  let ?s1 = "s1\<lparr>respErr := Some e\<rparr>"
  have f2: "fetches (snd (attempt u (replies 1) ?s1)) = 2"
    using attempt_fetches [of u "replies 1" ?s1] f1 by simp
  show ?thesis
  proof (cases "attempt u (replies 1) ?s1")
    case (Pair r s2)
    then show ?thesis
      using s1 f2
      by (cases r)
        (simp_all add: nonStreaming_def unexpectedResponse_def warn_def
          triesLoop.simps [of _ _ 0] triesLoop.simps [of _ _ "Suc 0"]
          triesLoop.simps [of _ _ "Suc (Suc 0)"])
  qed
qed

text \<open>
  Claim C1: a response body that encodes an error aborts the call at once, without a second
  attempt. The code throws inside the \<^verbatim>\<open>try\<close> of the loop, so its own \<^verbatim>\<open>catch\<close> takes the
  exception and the loop goes on. Here the first body is an error payload and the second a
  completion: the provider is called twice and the call returns the completion of the
  second attempt. (By \<open>error_body_second_attempt\<close> the second call is made after every
  error payload.)
\<close>

theorem C1_error_body_is_retried:
  "fst (nonStreaming False (JObj [])
         (\<lambda>tries. if tries = 0
                   then Body (JObj [(''error'', JObj [(''type'', JStr ''invalid_request_error'')])])
                   else Body (JObj [(''choices'', JArr [JObj [(''message'', JObj [(''content'', JStr ''ok'')])]])])))
     = Returned (JStr ''ok'')
   \<and> fetches (snd (nonStreaming False (JObj [])
         (\<lambda>tries. if tries = 0
                   then Body (JObj [(''error'', JObj [(''type'', JStr ''invalid_request_error'')])])
                   else Body (JObj [(''choices'', JArr [JObj [(''message'', JObj [(''content'', JStr ''ok'')])]])])))) = 2"
  by code_simp

text \<open>
  Claim C3, as stated: when both attempts end without a completion the call raises an error
  that carries the last transport error and the last raw response, and never returns
  normally. It fails where the transport fails at the first attempt and the second body
  holds neither an error nor a completion: the call returns \<^verbatim>\<open>null\<close>. And where the
  transport fails twice, what is raised is an \<^verbatim>\<open>Error\<close> with a fixed message, in which the
  transport error does not occur.
\<close>

theorem C3_counterexample:
  "fst (nonStreaming False (JObj [])
         (\<lambda>tries. if tries = 0 then Rejects ''ECONNRESET'' else Body (JObj [])))
     = Returned JNull
   \<and> fst (nonStreaming False (JObj [])
         (\<lambda>tries. if tries = 0 then Rejects ''ECONNRESET'' else Rejects ''ETIMEDOUT''))
     = Threw (Error ''Missing valid openai response, please check warn logs for more details'')
   \<and> \<not> sublist ''ETIMEDOUT'' ''Missing valid openai response, please check warn logs for more details''"
  by code_simp

text \<open>
  Claim C3, amended: when the transport fails at both attempts (\<^verbatim>\<open>fetch\<close> or \<^verbatim>\<open>resp.json()\<close>
  rejects), the call raises the fixed \<^verbatim>\<open>Error("Missing valid openai response, ...")\<close>; the
  diagnostics are in the warning log, whose one entry holds the request and the last
  transport error; the provider was called twice, no response was stored and the listener
  was never called.
\<close>

theorem C3_both_attempts_throw:
  assumes a0: "replies 0 = Rejects e0"
    and a1: "replies 1 = Rejects e1"
  shows "nonStreaming useRawApi reqJson replies
           = (Threw (Error ''Missing valid openai response, please check warn logs for more details''),
              init\<lparr>respErr := Some (Rejected e1),
                   warns := [UnableError reqJson (Rejected e1)],
                   fetches := 2\<rparr>)"
  using a0 a1
  by (simp add: nonStreaming_def unexpectedResponse_def warn_def attempt_def init_def
      triesLoop.simps [of _ _ 0] triesLoop.simps [of _ _ "Suc 0"]
      triesLoop.simps [of _ _ "Suc (Suc 0)"])

theorem C3_both_attempts_throw_witness:
  "nonStreaming False (JObj [(''model'', JStr ''gpt-4'')])
         (\<lambda>tries. if tries = 0 then Rejects ''ECONNRESET'' else Rejects ''ETIMEDOUT'')
     = (Threw (Error ''Missing valid openai response, please check warn logs for more details''),
        \<lparr>respJson = JNull, respErr = Some (Rejected ''ETIMEDOUT''), rawBuffer = [], parsedRes = [],
         warns = [UnableError (JObj [(''model'', JStr ''gpt-4'')]) (Rejected ''ETIMEDOUT'')],
         emitted = [], fetches = 2, reads = 0\<rparr>)"
proof -
  let ?p = "\<lambda>tries::nat. if tries = 0 then Rejects ''ECONNRESET'' else Rejects ''ETIMEDOUT''"
  have h0: "?p 0 = Rejects ''ECONNRESET''" by simp
  have h1: "?p 1 = Rejects ''ETIMEDOUT''" by simp
  show ?thesis
    using C3_both_attempts_throw [of ?p "''ECONNRESET''" "''ETIMEDOUT''", OF h0 h1]
    by (simp add: init_def)
qed

subsection \<open>The stream decoder\<close>

text \<open>Wherever the decoder stands, the outer loop ends as the inner loop from there decides.\<close>

lemma resume_drain:
  "decoderAt parse chunks s0 rest s \<Longrightarrow> readLoop parse chunks s0 = resume parse rest (drainEvents parse s)"
proof (induction rule: decoderAt.induct)
  case (start_done s0)
  show ?case by (simp add: resume_def split: prod.splits option.splits)
next
  case (start_chunk c cs s0)
  show ?case by (simp add: resume_def split: prod.splits option.splits)
next
  case (next_event chunks s0 rest s s')
  have "drainEvents parse s = drainEvents parse s'"
    using next_event.hyps(2,3) by (subst drainEvents.simps) simp
  then show ?case using next_event.IH by simp
next
  case (next_chunk chunks s0 c cs s)
  have "drainEvents parse s = (None, s)"
    using next_chunk.hyps(2) by (subst drainEvents.simps) simp
  then show ?case using next_chunk.IH by (simp add: resume_def split: prod.splits option.splits)
next
  case (completion chunks s0 s)
  have "drainEvents parse s = (None, s)"
    using completion.hyps(2) by (subst drainEvents.simps) simp
  then show ?case using completion.IH by (simp add: resume_def split: prod.splits option.splits)
qed

lemma drain_error_block:
  assumes "0 < indexOf (rawBuffer s) NLNL" and "startsWith (dataEventOf s) ''error:''"
  shows "drainEvents parse s
           = (Some (Str (''Unexpected stream request error: '' @ drop 6 (dataEventOf s))), afterEvent s)"
  using assms by (subst drainEvents.simps) (simp add: dataEventStep_def)

text \<open>
  Claim C4, as stated: a block that begins with \<^verbatim>\<open>error:\<close> ends the decoding at once, and
  the error the caller receives carries the text after the prefix. The second half fails:
  for the stream \<^verbatim>\<open>"error: boom\n\n"\<close> the caller receives the fixed string of the
  \<^verbatim>\<open>catch\<close>, in which \<^verbatim>\<open>boom\<close> does not occur.
\<close>

theorem C4_counterexample:
  "fst (streaming readJson (Chunks [''error: boom'' @ [NL, NL]]))
     = Threw (Str ''Unexpected event processing error, see warning logs for more details'')
   \<and> \<not> sublist ''boom'' ''Unexpected event processing error, see warning logs for more details''"
  by code_simp

text \<open>
  Claim C4, amended: wherever the decoder stands, a block at the head of the buffer that
  begins with \<^verbatim>\<open>error:\<close>, once its white space is trimmed, ends the decoding at once: no further event is processed, nothing
  more is read, the listener and the accumulated text are left as they are. The caller
  receives the fixed string \<^verbatim>\<open>"Unexpected event processing error, ..."\<close>; the text of the
  block after the prefix goes to the warning log.
\<close>

theorem C4_error_block:
  assumes at: "decoderAt parse chunks (init\<lparr>fetches := 1\<rparr>) rest s"
    and pos: "0 < indexOf (rawBuffer s) NLNL"
    and err: "startsWith (dataEventOf s) ''error:''"
  shows "streaming parse (Chunks chunks)
           = (Threw (Str ''Unexpected event processing error, see warning logs for more details''),
              (afterEvent s)\<lparr>warns := warns s @
                 [EventProcessingWarn
                    (Str (''Unexpected stream request error: '' @ drop 6 (dataEventOf s)))]\<rparr>)"
proof -
  have "readLoop parse chunks (init\<lparr>fetches := 1\<rparr>)
          = (Some (Str (''Unexpected stream request error: '' @ drop 6 (dataEventOf s))), afterEvent s)"
    using resume_drain [OF at] drain_error_block [OF pos err, of parse] by (simp add: resume_def)
  then show ?thesis
    by (simp add: streaming_def streamFrom_def streamBody_def warn_def afterEvent_def)
qed

theorem C4_error_block_witness:
  "streaming readJson
     (Chunks [''data: [DONE]'' @ [NL, NL] @ [CHR 0xA0] @ ''error: boom'' @ [CHR 0xA0] @ [NL, NL]])
     = (Threw (Str ''Unexpected event processing error, see warning logs for more details''),
        \<lparr>respJson = JNull, respErr = None, rawBuffer = [], parsedRes = [],
         warns = [EventProcessingWarn (Str ''Unexpected stream request error:  boom'')],
         emitted = [], fetches = 1, reads = 1\<rparr>)"
proof -
  let ?c = "''data: [DONE]'' @ [NL, NL] @ [CHR 0xA0] @ ''error: boom'' @ [CHR 0xA0] @ [NL, NL]"
  let ?s0 = "init\<lparr>fetches := 1\<rparr>"
  let ?sA = "afterRead (Some ?c) ?s0"
  let ?sB = "\<lparr>respJson = JNull, respErr = None,
              rawBuffer = [CHR 0xA0] @ ''error: boom'' @ [CHR 0xA0] @ [NL, NL],
              parsedRes = [], warns = [], emitted = [], fetches = 1, reads = 1\<rparr>"
  have v0: "decoderAt readJson [?c] ?s0 (Some []) ?sA" by (rule start_chunk)
  have p0: "0 < indexOf (rawBuffer ?sA) NLNL" by code_simp
  have st: "dataEventStep readJson (dataEventOf ?sA) (afterEvent ?sA) = (None, ?sB)" by code_simp
  have v1: "decoderAt readJson [?c] ?s0 (Some []) ?sB" by (rule next_event [OF v0 p0 st])
  have p1: "0 < indexOf (rawBuffer ?sB) NLNL" by code_simp
  have e1: "startsWith (dataEventOf ?sB) ''error:''" by code_simp
  have r: "(afterEvent ?sB)\<lparr>warns := warns ?sB @
                 [EventProcessingWarn
                    (Str (''Unexpected stream request error: '' @ drop 6 (dataEventOf ?sB)))]\<rparr>
           = \<lparr>respJson = JNull, respErr = None, rawBuffer = [], parsedRes = [],
         warns = [EventProcessingWarn (Str ''Unexpected stream request error:  boom'')],
         emitted = [], fetches = 1, reads = 1\<rparr>" by code_simp
  show ?thesis using C4_error_block [OF v1 p1 e1] r by simp
qed

text \<open>A sentinel block at the head of the buffer is passed over: the inner loop goes on
  with the rest of the buffer, in the same state otherwise.\<close>

lemma done_block_skipped:
  assumes "0 < indexOf (rawBuffer s) NLNL" and "startsWith (dataEventOf s) ''data: [DONE]''"
  shows "drainEvents parse s = drainEvents parse (afterEvent s)"
proof -
  have "\<not> startsWith (dataEventOf s) ''error:''"
    using assms(2) by (cases "dataEventOf s") (auto simp: startsWith_def)
  then show ?thesis
    using assms by (subst drainEvents.simps) (simp add: dataEventStep_def)
qed

text \<open>
  Claim C5: the stream \<^verbatim>\<open>data: {"choices":[{"delta":{"content":"Hi"}}]}\<close>, blank line,
  \<^verbatim>\<open>data: [DONE]\<close>, blank line, followed by the completion signal, hands exactly one delta
  \<^verbatim>\<open>"Hi"\<close> to the listener and returns \<^verbatim>\<open>"Hi"\<close>; the sentinel block yields no delta and does
  not end the stream: the decoder reads once more and ends on the completion signal (two
  reads), with nothing thrown and no warning. It holds for every \<^verbatim>\<open>JSON.parse\<close> that reads
  the payload as the object it denotes.
\<close>

theorem C5_hi_then_done:
  assumes \<open>parse ''{"choices":[{"delta":{"content":"Hi"}}]}''
             = Some (JObj [(''choices'', JArr [JObj [(''delta'', JObj [(''content'', JStr ''Hi'')])]])])\<close>
  shows \<open>streaming parse
           (Chunks [''data: {"choices":[{"delta":{"content":"Hi"}}]}'' @ [NL, NL] @ ''data: [DONE]'' @ [NL, NL]])
         = (Returned (JStr ''Hi''),
            \<lparr>respJson = JNull, respErr = None, rawBuffer = [], parsedRes = ''Hi'',
             warns = [], emitted = [JStr ''Hi''], fetches = 1, reads = 2\<rparr>)\<close>
  using assms
  by (simp add: streaming_def streamFrom_def streamBody_def afterRead_def drainEvents.simps
      dataEventOf_def afterEvent_def dataEventStep_def indexOf_def NLNL_def NL_def stripNL_def
      trim_def isSpace_def startsWith_def strTokenOf_def init_def streamListener_def
      andThen_def orElse_def optGet_def)

theorem C5_hi_then_done_witness:
  \<open>streaming readJson
           (Chunks [''data: {"choices":[{"delta":{"content":"Hi"}}]}'' @ [NL, NL] @ ''data: [DONE]'' @ [NL, NL]])
         = (Returned (JStr ''Hi''),
            \<lparr>respJson = JNull, respErr = None, rawBuffer = [], parsedRes = ''Hi'',
             warns = [], emitted = [JStr ''Hi''], fetches = 1, reads = 2\<rparr>)\<close>
proof -
  have h: \<open>readJson ''{"choices":[{"delta":{"content":"Hi"}}]}''
             = Some (JObj [(''choices'', JArr [JObj [(''delta'', JObj [(''content'', JStr ''Hi'')])]])])\<close>
    by code_simp
  show ?thesis using C5_hi_then_done [of readJson, OF h] .
qed

text \<open>What a run of the loops that ends without an exception leaves: a buffer in which the
  inner loop finds no further block, and an accumulated text that is the text it started
  with followed by the deltas handed to the listener, in their order.\<close>

lemma dataEventStep_text:
  assumes "dataEventStep parse ev s = (None, s')"
  shows "\<exists>new. emitted s' = emitted s @ new \<and> parsedRes s' = parsedRes s @ concat (map toStr new)"
  using assms
  by (auto simp: dataEventStep_def streamListener_def Let_def split: if_splits option.splits)

lemma drainEvents_end:
  "drainEvents parse s = (None, s') \<Longrightarrow>
     \<not> 0 < indexOf (rawBuffer s') NLNL
     \<and> (\<exists>new. emitted s' = emitted s @ new \<and> parsedRes s' = parsedRes s @ concat (map toStr new))"
proof (induction parse s rule: drainEvents.induct)
  case (1 parse s)
  show ?case
  proof (cases "0 < indexOf (rawBuffer s) NLNL")
    case False
    then have "drainEvents parse s = (None, s)" by (subst drainEvents.simps) simp
    then show ?thesis using "1.prems" False by simp
  next
    case True
    obtain r s1 where step: "dataEventStep parse (dataEventOf s) (afterEvent s) = (r, s1)"
      by (cases "dataEventStep parse (dataEventOf s) (afterEvent s)")
    have unfold: "drainEvents parse s = (case r of Some e \<Rightarrow> (Some e, s1) | None \<Rightarrow> drainEvents parse s1)"
      using True step by (subst drainEvents.simps) (simp split: option.splits)
    show ?thesis
    proof (cases r)
      case (Some e)
      then show ?thesis using unfold "1.prems" by simp
    next
      case None
      then have d: "drainEvents parse s1 = (None, s')" using unfold "1.prems" by simp
      have ih: "\<not> 0 < indexOf (rawBuffer s') NLNL
        \<and> (\<exists>new. emitted s' = emitted s1 @ new \<and> parsedRes s' = parsedRes s1 @ concat (map toStr new))"
        using "1.IH" [OF True step [symmetric, unfolded None] refl d] .
      obtain new1 where n1: "emitted s1 = emitted (afterEvent s) @ new1"
        "parsedRes s1 = parsedRes (afterEvent s) @ concat (map toStr new1)"
        using dataEventStep_text [OF step [unfolded None]] by blast
      obtain new2 where n2: "emitted s' = emitted s1 @ new2"
        "parsedRes s' = parsedRes s1 @ concat (map toStr new2)"
        using ih by blast
      have "emitted s' = emitted s @ (new1 @ new2) \<and>
            parsedRes s' = parsedRes s @ concat (map toStr (new1 @ new2))"
        using n1 n2 by (simp add: afterEvent_def)
      then show ?thesis using ih by blast
    qed
  qed
qed

lemma readLoop_end:
  "readLoop parse chunks s = (None, s') \<Longrightarrow>
     \<not> 0 < indexOf (rawBuffer s') NLNL
     \<and> (\<exists>new. emitted s' = emitted s @ new \<and> parsedRes s' = parsedRes s @ concat (map toStr new))"
proof (induction chunks arbitrary: s)
  case Nil
  then show ?case using drainEvents_end [of parse "afterRead None s" s']
    by (simp add: afterRead_def)
next
  case (Cons chunk rest)
  obtain r s1 where d: "drainEvents parse (afterRead (Some chunk) s) = (r, s1)"
    by (cases "drainEvents parse (afterRead (Some chunk) s)")
  show ?case
  proof (cases r)
    case (Some e)
    then show ?thesis using Cons.prems d by simp
  next
    case None
    then have rest: "readLoop parse rest s1 = (None, s')" using Cons.prems d by simp
    obtain new1 where n1: "emitted s1 = emitted s @ new1"
        "parsedRes s1 = parsedRes s @ concat (map toStr new1)"
      using drainEvents_end [OF d [unfolded None]] by (auto simp: afterRead_def)
    obtain new2 where n2: "emitted s' = emitted s1 @ new2"
        "parsedRes s' = parsedRes s1 @ concat (map toStr new2)"
      using Cons.IH [OF rest] by blast
    have "emitted s' = emitted s @ (new1 @ new2) \<and>
          parsedRes s' = parsedRes s @ concat (map toStr (new1 @ new2))"
      using n1 n2 by simp
    then show ?thesis using Cons.IH [OF rest] by blast
  qed
qed

text \<open>
  Claim C6: in every run in which the source signals completion, the loop being left in
  state \<open>s'\<close>, the buffer holds no block the loop would still take up; when what it holds
  is not blank the decoder throws instead of returning the text accumulated so far, with
  the remainder in the warning log; when it is blank the decoder returns the accumulated
  text, which is the whole of it: every delta handed to the listener, in order.
\<close>

theorem C6_end_of_stream:
  assumes "readLoop parse chunks s = (None, s')"
  shows "\<not> 0 < indexOf (rawBuffer s') NLNL
       \<and> (trim (rawBuffer s') \<noteq> [] \<longrightarrow>
            streamFrom parse chunks s
              = (Threw (Str ''Unexpected event processing error, see warning logs for more details''),
                 s'\<lparr>warns := warns s' @
                      [UnprocessedDataWarn (trim (rawBuffer s')),
                       EventProcessingWarn
                         (Str ''Unexpected end of stream, with unprocessed data, see warning logs for more details'')]\<rparr>))
       \<and> (trim (rawBuffer s') = [] \<longrightarrow>
            streamFrom parse chunks s = (Returned (JStr (parsedRes s')), s'))
       \<and> parsedRes s'
           = parsedRes s @ concat (map toStr (drop (length (emitted s)) (emitted s')))"
proof -
  obtain new where n: "emitted s' = emitted s @ new"
      "parsedRes s' = parsedRes s @ concat (map toStr new)"
    using readLoop_end [OF assms] by blast
  have 1: "\<not> 0 < indexOf (rawBuffer s') NLNL" using readLoop_end [OF assms] by blast
  have 4: "parsedRes s' = parsedRes s @ concat (map toStr (drop (length (emitted s)) (emitted s')))"
    using n by simp
  show ?thesis using 1 4 assms
    by (simp add: streamFrom_def streamBody_def warn_def)
qed

theorem C6_end_of_stream_witness:
  "streamFrom readJson []
       (init\<lparr>rawBuffer := [NL, NL] @ ''data: [DONE]'' @ [NL, NL] @ ''data: {incomplete'',
             parsedRes := ''Hel'', emitted := [JStr ''Hel'']\<rparr>)
     = (Threw (Str ''Unexpected event processing error, see warning logs for more details''),
        \<lparr>respJson = JNull, respErr = None, rawBuffer = ''data: {incomplete'', parsedRes = ''Hel'',
         warns = [UnprocessedDataWarn ''data: {incomplete'',
                  EventProcessingWarn
                    (Str ''Unexpected end of stream, with unprocessed data, see warning logs for more details'')],
         emitted = [JStr ''Hel''], fetches = 0, reads = 1\<rparr>)
   \<and> streamFrom readJson [[CHR 0xA0, NL]]
       (init\<lparr>parsedRes := ''Hello'', emitted := [JStr ''Hello'']\<rparr>)
     = (Returned (JStr ''Hello''),
        \<lparr>respJson = JNull, respErr = None, rawBuffer = [CHR 0xA0, NL], parsedRes = ''Hello'',
         warns = [], emitted = [JStr ''Hello''], fetches = 0, reads = 2\<rparr>)"
proof -
  let ?s1 = "init\<lparr>rawBuffer := [NL, NL] @ ''data: [DONE]'' @ [NL, NL] @ ''data: {incomplete'',
             parsedRes := ''Hel'', emitted := [JStr ''Hel'']\<rparr>"
  let ?e1 = "\<lparr>respJson = JNull, respErr = None, rawBuffer = ''data: {incomplete'', parsedRes = ''Hel'',
         warns = [], emitted = [JStr ''Hel''], fetches = 0, reads = 1\<rparr>"
  let ?s2 = "init\<lparr>parsedRes := ''Hello'', emitted := [JStr ''Hello'']\<rparr>"
  let ?e2 = "\<lparr>respJson = JNull, respErr = None, rawBuffer = [CHR 0xA0, NL], parsedRes = ''Hello'',
         warns = [], emitted = [JStr ''Hello''], fetches = 0, reads = 2\<rparr>"
  have h1: "readLoop readJson [] ?s1 = (None, ?e1)" by code_simp
  have h2: "readLoop readJson [[CHR 0xA0, NL]] ?s2 = (None, ?e2)" by code_simp
  have t1: "trim ''data: {incomplete'' = ''data: {incomplete''" by code_simp
  have t2: "trim [CHR 0xA0, NL] = []" by code_simp
  show ?thesis
    using C6_end_of_stream [OF h1] C6_end_of_stream [OF h2]
    by (simp add: t1 t2)
qed

section \<open>Properties of the shared remote cache\<close>

text \<open>
  Claim C2: the lookup and the upsert of an embedding address the record by the same key,
  the prompt with the options, so that requests with the same prompt and different options
  never meet each other's entry. The upsert filters by prompt and options, the lookup by
  the prompt alone. Here an embedding is stored for the prompt with 256 dimensions and
  looked up for the same prompt and model with 512 dimensions: the lookup returns the stored
  vector.
\<close>

theorem C2_lookup_ignores_options:
  "thenLookup
     (addCacheEmbedding (\<lambda>name. [])
        \<lparr>promptOpt = JObj [(''model'', JStr ''ada'')], hash = ''h1'', tempKey = 0,
         prompt = ''hello'', cleanOpt = JObj [(''model'', JStr ''ada''), (''dimensions'', JNum 256)]\<rparr>
        (JArr [JNum 1, JNum 2]))
     (\<lambda>store. getCacheEmbedding store
        \<lparr>promptOpt = JObj [(''model'', JStr ''ada'')], hash = ''h1'', tempKey = 0,
         prompt = ''hello'', cleanOpt = JObj [(''model'', JStr ''ada''), (''dimensions'', JNum 512)]\<rparr>)
   = Inr (JArr [JNum 1, JNum 2])"
  by code_simp

text \<open>The completions of the same backend are looked up by all four fields: the same two
  requests do not meet.\<close>

lemma completion_lookup_uses_options:
  "thenLookup
     (addCacheCompletion (\<lambda>name. [])
        \<lparr>promptOpt = JObj [(''model'', JStr ''ada'')], hash = ''h1'', tempKey = 0,
         prompt = ''hello'', cleanOpt = JObj [(''model'', JStr ''ada''), (''dimensions'', JNum 256)]\<rparr>
        (JStr ''done''))
     (\<lambda>store. getCacheCompletion store
        \<lparr>promptOpt = JObj [(''model'', JStr ''ada'')], hash = ''h1'', tempKey = 0,
         prompt = ''hello'', cleanOpt = JObj [(''model'', JStr ''ada''), (''dimensions'', JNum 512)]\<rparr>)
   = Inr JNull"
  by code_simp

section \<open>Properties of the canonical serialization\<close>

lemma distinct_map_insort_key:
  "distinct (map f (insort_key f x xs)) = (f x \<notin> f ` set xs \<and> distinct (map f xs))"
  by (induction xs) (auto simp: set_insort_key)

lemma distinct_keys_sort_key:
  "distinct (map fst fs) \<Longrightarrow> distinct (map fst (sort_key fst fs))"
  by (induction fs) (auto simp: sort_key_simps distinct_map_insort_key)

lemma sorted_keys_agree:
  assumes "distinct (map fst fs)" "distinct (map fst gs)" "set (map fst fs) = set (map fst gs)"
  shows "map fst (sort_key fst fs) = map fst (sort_key fst gs)"
proof (rule sorted_distinct_set_unique)
  show "sorted (map fst (sort_key fst fs))" by (rule sorted_sort_key)
  show "sorted (map fst (sort_key fst gs))" by (rule sorted_sort_key)
  show "distinct (map fst (sort_key fst fs))" using assms(1) by (rule distinct_keys_sort_key)
  show "distinct (map fst (sort_key fst gs))" using assms(2) by (rule distinct_keys_sort_key)
  show "set (map fst (sort_key fst fs)) = set (map fst (sort_key fst gs))"
    using assms(3) by simp
qed

lemma get_distinct: "distinct (map fst gs) \<Longrightarrow> (k, w) \<in> set gs \<Longrightarrow> get (JObj gs) k = w"
  by simp

lemma members_agree:
  assumes keys: "map fst L = map fst M"
    and vals: "\<And>i. i < length L \<Longrightarrow> S (snd (L ! i)) = S (snd (M ! i))"
  shows "map (\<lambda>(key, v). G key (S v)) L = map (\<lambda>(key, v). G key (S v)) M"
proof (rule nth_equalityI)
  have len: "length L = length M" using keys by (metis length_map)
  show "length (map (\<lambda>(key, v). G key (S v)) L) = length (map (\<lambda>(key, v). G key (S v)) M)"
    using len by simp
  fix i assume "i < length (map (\<lambda>(key, v). G key (S v)) L)"
  then have i: "i < length L" by simp
  then have "fst (L ! i) = fst (M ! i)" using keys len by (metis nth_map)
  then show "map (\<lambda>(key, v). G key (S v)) L ! i = map (\<lambda>(key, v). G key (S v)) M ! i"
    using i len vals [OF i] by (simp add: case_prod_beta)
qed

lemma sameContent_stringify: "sameContent a b \<Longrightarrow> jsonStringify quote a = jsonStringify quote b"
proof (induction a b rule: sameContent.induct)
  case (1 xs ys)
  then have len: "length xs = length ys"
    and rel: "\<And>x y. (x, y) \<in> set (zip xs ys) \<Longrightarrow> sameContent x y" by auto
  have "map (\<lambda>x. case jsonStringify quote x of None \<Rightarrow> ''null'' | Some t \<Rightarrow> t) xs
      = map (\<lambda>x. case jsonStringify quote x of None \<Rightarrow> ''null'' | Some t \<Rightarrow> t) ys"
  proof (rule nth_equalityI)
    show "length (map (\<lambda>x. case jsonStringify quote x of None \<Rightarrow> ''null'' | Some t \<Rightarrow> t) xs)
        = length (map (\<lambda>x. case jsonStringify quote x of None \<Rightarrow> ''null'' | Some t \<Rightarrow> t) ys)"
      using len by simp
    fix i assume "i < length (map (\<lambda>x. case jsonStringify quote x of None \<Rightarrow> ''null'' | Some t \<Rightarrow> t) xs)"
    then have i: "i < length xs" by simp
    then have m: "(xs ! i, ys ! i) \<in> set (zip xs ys)" using len by (auto simp: set_zip)
    have "jsonStringify quote (xs ! i) = jsonStringify quote (ys ! i)"
      using "1.IH" [OF m refl rel [OF m]] .
    then show "map (\<lambda>x. case jsonStringify quote x of None \<Rightarrow> ''null'' | Some t \<Rightarrow> t) xs ! i
        = map (\<lambda>x. case jsonStringify quote x of None \<Rightarrow> ''null'' | Some t \<Rightarrow> t) ys ! i"
      using i len by simp
  qed
  then show ?case by simp
next
  case (2 fs gs)
  then have df: "distinct (map fst fs)" and dg: "distinct (map fst gs)"
    and ks: "set (map fst fs) = set (map fst gs)"
    and rel: "\<And>k v. (k, v) \<in> set fs \<Longrightarrow> sameContent v (get (JObj gs) k)" by auto
  let ?L = "sort_key fst fs" and ?M = "sort_key fst gs"
  have keys: "map fst ?L = map fst ?M" using df dg ks by (rule sorted_keys_agree)
  have len: "length ?L = length ?M" using keys by (metis length_map)
  have vals: "jsonStringify quote (snd (?L ! i)) = jsonStringify quote (snd (?M ! i))"
    if i: "i < length ?L" for i
  proof -
    have inL: "?L ! i \<in> set fs" using i by (metis nth_mem set_sort)
    have inM: "?M ! i \<in> set gs" using i len by (metis nth_mem set_sort)
    have k: "fst (?L ! i) = fst (?M ! i)" using keys i len by (metis nth_map)
    have mem: "(fst (?L ! i), snd (?L ! i)) \<in> set fs" using inL by simp
    have "(fst (?L ! i), snd (?M ! i)) \<in> set gs" using inM k by simp
    then have g: "get (JObj gs) (fst (?L ! i)) = snd (?M ! i)" using dg by (rule get_distinct [rotated])
    show ?thesis using "2.IH" [OF mem refl rel [OF mem]] g by simp
  qed
  have "map (\<lambda>(key, v). member quote key (jsonStringify quote v)) ?L
      = map (\<lambda>(key, v). member quote key (jsonStringify quote v)) ?M"
    using keys vals by (rule members_agree)
  then show ?case by simp
qed simp_all

lemma sameContent_nullish: "sameContent x y \<Longrightarrow> nullish x = nullish y"
  by (cases x; cases y) auto

lemma sameContent_get:
  assumes "sameContent (JObj fs) (JObj gs)"
  shows "sameContent (get (JObj fs) k) (get (JObj gs) k)"
proof (cases "k \<in> fst ` set fs")
  case True
  then obtain v where v: "(k, v) \<in> set fs" by auto
  then have "get (JObj fs) k = v" using assms by simp
  then show ?thesis using assms v by auto
next
  case False
  then have "map_of fs k = None" by (simp add: map_of_eq_None_iff)
  moreover have "map_of gs k = None" using False assms by (simp add: map_of_eq_None_iff)
  ultimately show ?thesis by simp
qed

lemma sameContent_normalize:
  assumes "sameContent a b"
  shows "(\<exists>e. normalizeMessages a = Inl e \<and> normalizeMessages b = Inl e)
       \<or> (\<exists>m n. normalizeMessages a = Inr m \<and> normalizeMessages b = Inr n \<and> sameContent m n)"
proof (cases a)
  case (JObj fs)
  then obtain gs where b: "b = JObj gs" using assms by (cases b) auto
  have r: "nullish (get a ''role'') = nullish (get b ''role'')"
    and c: "nullish (get a ''content'') = nullish (get b ''content'')"
    using assms JObj b sameContent_get sameContent_nullish by blast+
  show ?thesis using assms JObj b r c by (auto simp: normalizeMessages_def)
next
  case (JArr xs)
  then obtain ys where b: "b = JArr ys" using assms by (cases b) auto
  show ?thesis using assms JArr b by (auto simp: normalizeMessages_def)
qed (use assms in \<open>auto simp: normalizeMessages_def\<close>)

text \<open>
  Claim C7: two message payloads with the same content, differing only in the order in
  which the fields of their objects were inserted, have the same serialization, and so the
  same cache index, also after the normalization of the payload that precedes it.
\<close>

theorem C7_key_order_independent:
  assumes "sameContent a b"
  shows "jsonStringify quote a = jsonStringify quote b
       \<and> map_sum id (cacheIndex quote) (normalizeMessages a)
           = map_sum id (cacheIndex quote) (normalizeMessages b)"
proof -
  have 1: "jsonStringify quote a = jsonStringify quote b"
    using assms by (rule sameContent_stringify)
  have 2: "map_sum id (cacheIndex quote) (normalizeMessages a)
           = map_sum id (cacheIndex quote) (normalizeMessages b)"
    using sameContent_normalize [OF assms]
    by (auto simp: cacheIndex_def dest: sameContent_stringify [where quote = quote])
  show ?thesis using 1 2 by simp
qed

theorem C7_key_order_independent_witness:
  \<open>sameContent (JArr [JObj [(''role'', JStr ''user''), (''content'', JStr ''Hi'')]])
               (JArr [JObj [(''content'', JStr ''Hi''), (''role'', JStr ''user'')]])
   \<and> jsonStringify plainQuote (JArr [JObj [(''role'', JStr ''user''), (''content'', JStr ''Hi'')]])
       = Some ''[{"content":"Hi","role":"user"}]''
   \<and> jsonStringify plainQuote (JArr [JObj [(''content'', JStr ''Hi''), (''role'', JStr ''user'')]])
       = Some ''[{"content":"Hi","role":"user"}]''\<close>
proof -
  have h: "sameContent (JArr [JObj [(''role'', JStr ''user''), (''content'', JStr ''Hi'')]])
               (JArr [JObj [(''content'', JStr ''Hi''), (''role'', JStr ''user'')]])"
    by code_simp
  have v: \<open>jsonStringify plainQuote (JArr [JObj [(''role'', JStr ''user''), (''content'', JStr ''Hi'')]])
       = Some ''[{"content":"Hi","role":"user"}]''\<close>
    by code_simp
  show ?thesis using h v C7_key_order_independent [OF h, of plainQuote] by simp
qed

section \<open>Properties of the bridge\<close>




text \<open>
  Claim C9: a configuration whose two provider keys are absent or the empty string makes the
  constructor throw \<^verbatim>\<open>"No provider keys provided"\<close>; and a key that is the empty string
  leaves the bridge with the same keys as a key that is \<^verbatim>\<open>null\<close>.
\<close>

theorem C9_no_provider_keys:
  "(provider cfg = JObj fs \<and> emptyKey (get (JObj fs) ''openai'') \<and> emptyKey (get (JObj fs) ''anthropic'')
      \<longrightarrow> AiBridge cfg cache = Inl (Str ''No provider keys provided''))
   \<and> keysOf (AiBridge (cfg\<lparr>provider := JObj [(''openai'', JStr []), (''anthropic'', k)]\<rparr>) cache)
       = keysOf (AiBridge (cfg\<lparr>provider := JObj [(''openai'', JNull), (''anthropic'', k)]\<rparr>) cache)
   \<and> keysOf (AiBridge (cfg\<lparr>provider := JObj [(''openai'', k), (''anthropic'', JStr [])]\<rparr>) cache)
       = keysOf (AiBridge (cfg\<lparr>provider := JObj [(''openai'', k), (''anthropic'', JNull)]\<rparr>) cache)"
  by (auto simp: AiBridge_def emptyKey_def nullOutEmpty_def looseEqEmpty_def keysOf_def Let_def)

theorem C9_no_provider_keys_witness:
  "AiBridge \<lparr>provider = JObj [(''openai'', JStr []), (''anthropic'', JNull)],
             temperatureKeyMultiplier = Finite 10\<rparr> (0::nat)
     = Inl (Str ''No provider keys provided'')"
proof -
  have "emptyKey (get (JObj [(''openai'', JStr []), (''anthropic'', JNull)]) ''openai'')"
    and "emptyKey (get (JObj [(''openai'', JStr []), (''anthropic'', JNull)]) ''anthropic'')"
    by (simp_all add: emptyKey_def)
  then show ?thesis
    using C9_no_provider_keys [of "\<lparr>provider = JObj [(''openai'', JStr []), (''anthropic'', JNull)],
             temperatureKeyMultiplier = Finite 10\<rparr>" "[(''openai'', JStr []), (''anthropic'', JNull)]" "0::nat"]
    by simp
qed

text \<open>
  Claim C10: once the request is prepared, a cache hit hands the cached completion to the
  listener exactly once and returns it with \<^verbatim>\<open>token.cache = true\<close>, the cache unchanged; on
  a miss the provider chosen by the model is called, and what it returns is returned with
  \<^verbatim>\<open>token.cache = false\<close> and added to the cache, the listener having heard what the
  provider handed it; what the provider throws is thrown.
\<close>

theorem C10_hit_and_miss:
  assumes "prepare E self msgs0 opt0 tk = Inr p"
  shows "(\<not> nullish (getCacheChatCompletion E (layerCache self) (pPrompt p) (pOpt p) cacheGrp (pTempKey p)) \<longrightarrow>
           AiBridge_getChatCompletion E self msgs0 opt0 cacheGrp tk
             = (Inr \<lparr>resModel = pModel p,
                     resCompletion = getCacheChatCompletion E (layerCache self) (pPrompt p) (pOpt p) cacheGrp (pTempKey p),
                     tokenPrompt = pTokens p,
                     tokenCompletion = getTokenCount E
                        (getCacheChatCompletion E (layerCache self) (pPrompt p) (pOpt p) cacheGrp (pTempKey p)),
                     tokenCache = True\<rparr>,
                [getCacheChatCompletion E (layerCache self) (pPrompt p) (pOpt p) cacheGrp (pTempKey p)],
                layerCache self))
       \<and> (nullish (getCacheChatCompletion E (layerCache self) (pPrompt p) (pOpt p) cacheGrp (pTempKey p)) \<longrightarrow>
           (case (if startsWith (pModel p) ''claude-''
                  then anthropic_getChatCompletion E (anthropic_key self) (pOpt p)
                  else openai_getChatCompletion E (openai_key self) (pOpt p)) of
              (Returned v, heard) \<Rightarrow>
                AiBridge_getChatCompletion E self msgs0 opt0 cacheGrp tk
                  = (Inr \<lparr>resModel = pModel p, resCompletion = v, tokenPrompt = pTokens p,
                          tokenCompletion = getTokenCount E v, tokenCache = False\<rparr>,
                     heard,
                     addCacheChatCompletion E (layerCache self) (pPrompt p) v (pOpt p) cacheGrp (pTempKey p))
            | (Threw e, heard) \<Rightarrow>
                AiBridge_getChatCompletion E self msgs0 opt0 cacheGrp tk = (Inl e, heard, layerCache self)))"
  using assms
  by (auto simp: AiBridge_getChatCompletion_def serve_def Let_def split: prod.splits outcome.splits)

theorem C10_hit_and_miss_witness:
  \<open>AiBridge_getChatCompletion demoEnv
       (demoBridge [(JStr ''[{"content":"Hi","role":"user"}]'', JStr ''cached text'')])
       (JStr ''Hi'') demoOpt ''default'' (Finite (- 1))
     = (Inr \<lparr>resModel = ''gpt-3.5-turbo-1106'', resCompletion = JStr ''cached text'',
             tokenPrompt = 32, tokenCompletion = 11, tokenCache = True\<rparr>,
        [JStr ''cached text''],
        [(JStr ''[{"content":"Hi","role":"user"}]'', JStr ''cached text'')])
   \<and> AiBridge_getChatCompletion demoEnv (demoBridge []) (JStr ''Hi'') demoOpt ''default'' (Finite (- 1))
     = (Inr \<lparr>resModel = ''gpt-3.5-turbo-1106'', resCompletion = JStr ''Hello!'',
             tokenPrompt = 32, tokenCompletion = 6, tokenCache = False\<rparr>,
        [JStr ''Hello!''],
        [(JStr ''[{"content":"Hi","role":"user"}]'', JStr ''Hello!'')])\<close>
proof -
  let ?pr = \<open>JStr ''[{"content":"Hi","role":"user"}]''\<close>
  let ?o = \<open>\<lparr>model = Some ''gpt-3.5-turbo-1106'', max_tokens = Tokens 16801,
               total_tokens = None, temperature = Finite 0,
               messages = JArr [JObj [(''role'', JStr ''user''), (''content'', JStr ''Hi'')]],
               otherOpts = JObj []\<rparr>\<close>
  let ?p = \<open>\<lparr>pPrompt = ?pr, pTokens = 32, pOpt = ?o, pModel = ''gpt-3.5-turbo-1106'', pTempKey = Finite 0\<rparr>\<close>
  let ?c = \<open>[(?pr, JStr ''cached text'')]\<close>
  have tk: "generateTempKey (Finite 0) (Finite 10) (1 / 2) (Finite (- 1)) = Finite 0"
    by (simp add: generateTempKey_def)
  have idx: \<open>cacheIndex plainQuote (JArr [JObj [(''role'', JStr ''user''), (''content'', JStr ''Hi'')]]) = ?pr\<close>
    by code_simp
  have norm: \<open>normalizeCompletionOptObject
                (demoOpt\<lparr>messages := JArr [JObj [(''role'', JStr ''user''), (''content'', JStr ''Hi'')]]\<rparr>) 32
                (JArr [JObj [(''role'', JStr ''user''), (''content'', JStr ''Hi'')]])
              = Inr ?o\<close>
    by (simp add: normalizeCompletionOptObject_def demoOpt_def Let_def startsWith_def endsWith_def lengthOf_def)
  have prep: "prepare demoEnv (demoBridge c) (JStr ''Hi'') demoOpt (Finite (- 1)) = Inr ?p" for c
    by (simp add: prepare_def normalizeMessages_def demoEnv_def demoBridge_def idx norm tk)
  have l: "layerCache (demoBridge c) = c" for c by (simp add: demoBridge_def)
  have hit: "getCacheChatCompletion demoEnv ?c ?pr ?o ''default'' (Finite 0) = JStr ''cached text''"
    by (simp add: demoEnv_def)
  have miss: "getCacheChatCompletion demoEnv [] ?pr ?o ''default'' (Finite 0) = JNull"
    by (simp add: demoEnv_def)
  have call: "openai_getChatCompletion demoEnv (openai_key (demoBridge [])) ?o
                = (Returned (JStr ''Hello!''), [JStr ''Hello!''])"
    by code_simp
  have pre: "\<not> startsWith ''gpt-3.5-turbo-1106'' ''claude-''" by code_simp
  have tc: "getTokenCount demoEnv (JStr ''cached text'') = 11"
    and tm: "getTokenCount demoEnv (JStr ''Hello!'') = 6"
    by (simp_all add: demoEnv_def)
  have a: "addCacheChatCompletion demoEnv [] ?pr (JStr ''Hello!'') ?o ''default'' (Finite 0) = [(?pr, JStr ''Hello!'')]"
    by (simp add: demoEnv_def)
  show ?thesis
    using C10_hit_and_miss [OF prep [of ?c], of "''default''"]
      C10_hit_and_miss [OF prep [of "[]"], of "''default''"]
    by (simp add: l hit miss call pre tc tm a)
qed

end
